theory Spec2Isabelle
  imports Main
begin

section \<open>The status query and the values the provider reads from it\<close>

text \<open>
  The component \<^verbatim>\<open>GlobalSystemStateProvider\<close> of
  \<^verbatim>\<open>packages/ui/src/providers/global-system-state.tsx\<close> polls the backend's status and
  chooses what to render. A status is the string the remote call returns; the TypeScript type
  lists \<^verbatim>\<open>'running'\<close>, \<^verbatim>\<open>'shutting-down'\<close> and \<^verbatim>\<open>'restarting'\<close>, the switch of the
  component has a default branch for anything else, and \<^verbatim>\<open>undefined\<close> (no data yet) is
  \<open>None\<close>.
\<close>

type_synonym SystemStatus = string

text \<open>
  The result object of \<^verbatim>\<open>trpcReact.system.status.useQuery\<close>, restricted to the five
  fields the component reads. The error object is kept as its message; \<open>None\<close> is
  \<^verbatim>\<open>null\<close>.
\<close>

record status_query =
  data :: "SystemStatus option"
  error :: "string option"
  isError :: bool
  isLoading :: bool
  failureCount :: nat

text \<open>
  What the query library guarantees about a result object: \<^verbatim>\<open>isError\<close> is set exactly
  when an error object is present, and a loading result (first fetch not finished) has neither
  data nor error. A failed refetch keeps the last data next to the error.
\<close>

definition wf_query :: "status_query \<Rightarrow> bool" where
  "wf_query q \<longleftrightarrow>
     (isError q \<longleftrightarrow> error q \<noteq> None) \<and>
     (isLoading q \<longrightarrow> data q = None \<and> error q = None)"

definition loading_query :: status_query where
  "loading_query =
     \<lparr>data = None, error = None, isError = False, isLoading = True, failureCount = 0\<rparr>"

text \<open>
  Modelled from the spec: the constant \<^verbatim>\<open>MS_PER_SECOND\<close> of \<^verbatim>\<open>@/utils/date-time\<close>, which
  is not among the sources. The spec calls the timer of \<^verbatim>\<open>30 * MS_PER_SECOND\<close> a 30-second
  timer, and \<^verbatim>\<open>setTimeout\<close> counts milliseconds.
\<close>

definition MS_PER_SECOND :: nat where
  "MS_PER_SECOND = 1000"

section \<open>The provider's state\<close>

text \<open>
  \<^verbatim>\<open>usePreviousDistinct\<close> (package react-use) keeps two references and a first-mount flag:
  on the first call it stores the value and returns \<^verbatim>\<open>undefined\<close>; on a later call with a
  value different from the stored one, the stored one becomes the previous one.
\<close>

record 'a distinct_refs =
  first_mount :: bool
  prevRef :: "'a option"
  curRef :: "'a option"

definition usePreviousDistinct ::
  "'a distinct_refs \<Rightarrow> 'a option \<Rightarrow> 'a option \<times> 'a distinct_refs" where
  "usePreviousDistinct r v =
     (if first_mount r then (None, \<lparr>first_mount = False, prevRef = None, curRef = v\<rparr>)
      else if curRef r \<noteq> v then (curRef r, r\<lparr>prevRef := curRef r, curRef := v\<rparr>)
      else (prevRef r, r))"

text \<open>The references before the first render.\<close>

definition unmounted_refs :: "'a distinct_refs" where
  "unmounted_refs = \<lparr>first_mount = True, prevRef = None, curRef = None\<rparr>"

text \<open>The two closures handed to \<^verbatim>\<open>setTimeout\<close>, and the two mutations.\<close>

datatype callback = LogoutCallback | ShutdownCompleteCallback

datatype mutation = Restart | Shutdown

text \<open>
  Calls the component makes into its collaborators, recorded with the time of the call:
  issuing a mutation, \<^verbatim>\<open>setTimeout(cb, ms)\<close>, \<^verbatim>\<open>ctx.system.status.cancel()\<close>,
  \<^verbatim>\<open>queryClient.cancelQueries()\<close>, \<^verbatim>\<open>jwt.removeJwt()\<close> and the assignment to
  \<^verbatim>\<open>window.location.href\<close>.
\<close>

datatype action =
    Mutate mutation
  | SetTimeoutCall callback nat
  | CancelStatusQuery
  | CancelQueries
  | RemoveJwt
  | Navigate string

datatype screen =
    CheckingBackend
  | ShutdownCompleteMessage
  | Children
  | ShuttingDownScreen
  | RestartingScreen
  | UnexpectedState

text \<open>
  The four state cells of the component (\<open>shouldLogoutOnRunning\<close> is the cell of
  \<^verbatim>\<open>useLocalStorage2('should-logout-on-running', false)\<close>), the references of
  \<^verbatim>\<open>usePreviousDistinct\<close>, the current query result, and the environment the component acts
  on: a clock in milliseconds, the pending timers with the time they are due, and the record of
  calls. \<open>shown\<close> is the outcome of the last render: a screen, or the error it threw.
\<close>

record provider =
  triggered :: bool
  shouldLogoutOnRunning :: bool
  startShutdownTimer :: bool
  shutdownComplete :: bool
  prevDistinct :: "SystemStatus distinct_refs"
  systemStatusQ :: status_query
  clock :: nat
  timers :: "(nat \<times> callback) list"
  calls :: "(nat \<times> action) list"
  shown :: "(string + screen) option"

section \<open>Rendering\<close>

definition refetchInterval :: "bool \<Rightarrow> nat" where
  "refetchInterval trig = (if trig then 500 else 10 * MS_PER_SECOND)"

definition prevStatus :: "SystemStatus option \<Rightarrow> SystemStatus" where
  "prevStatus p = (case p of None \<Rightarrow> ''running'' | Some s \<Rightarrow> s)"

definition statusToShow ::
  "bool \<Rightarrow> SystemStatus option \<Rightarrow> SystemStatus \<Rightarrow> SystemStatus option" where
  "statusToShow trig status prev =
     (if trig \<and> status = Some ''running'' then Some prev else status)"

text \<open>The \<^verbatim>\<open>switch (statusToShow)\<close> at the end of the component.\<close>

definition switch_screen :: "SystemStatus option \<Rightarrow> screen" where
  "switch_screen s =
     (case s of
        None \<Rightarrow> Children
      | Some v \<Rightarrow>
          if v = ''running'' then Children
          else if v = ''shutting-down'' then ShuttingDownScreen
          else if v = ''restarting'' then RestartingScreen
          else UnexpectedState)"

text \<open>\<^verbatim>\<open>if (systemStatusQ.error && !triggered) throw systemStatusQ.error\<close>\<close>

definition throws :: "provider \<Rightarrow> status_query \<Rightarrow> bool" where
  "throws st q \<longleftrightarrow> error q \<noteq> None \<and> \<not> triggered st"

text \<open>
  What the component returns once the throw is passed, for the value \<open>p\<close> returned by
  \<^verbatim>\<open>usePreviousDistinct(status)\<close>: the loading placeholder, the terminal message, or the
  screen of the switch.
\<close>

definition view :: "provider \<Rightarrow> status_query \<Rightarrow> SystemStatus option \<Rightarrow> screen" where
  "view st q p =
     (let shows = statusToShow (triggered st) (data q) (prevStatus p) in
      if isLoading q then CheckingBackend
      else if shows = Some ''shutting-down'' \<and> shutdownComplete st then ShutdownCompleteMessage
      else switch_screen shows)"

text \<open>
  What one evaluation of the body of \<^verbatim>\<open>GlobalSystemStateProvider\<close> yields for the state
  \<open>st\<close>, the query result \<open>q\<close> and the hook's value \<open>p\<close>: \<open>Inl\<close> is the thrown query
  error, \<open>Inr\<close> the screen returned.
\<close>

definition GlobalSystemStateProvider ::
  "provider \<Rightarrow> status_query \<Rightarrow> SystemStatus option \<Rightarrow> string + screen" where
  "GlobalSystemStateProvider st q p =
     (case error q of
        Some e \<Rightarrow> if \<not> triggered st then Inl e else Inr (view st q p)
      | None \<Rightarrow> Inr (view st q p))"

section \<open>Effects\<close>

text \<open>
  An effect reads the values of the render it belongs to and asks for state updates and
  timers; the updates take effect after all effects of that render have run.
\<close>

datatype command =
    SetShouldLogout bool
  | SetStartShutdownTimer bool
  | SetTimeout callback nat

text \<open>First effect: a transition this client triggered has started, so a logout is owed.\<close>

definition effect_owe_logout :: "provider \<Rightarrow> SystemStatus option \<Rightarrow> command list" where
  "effect_owe_logout st status =
     (if status \<noteq> Some ''running'' \<and> triggered st \<and> \<not> shouldLogoutOnRunning st
      then [SetShouldLogout True] else [])"

text \<open>Second effect: back to running with a logout owed.\<close>

definition effect_logout :: "provider \<Rightarrow> SystemStatus option \<Rightarrow> command list" where
  "effect_logout st status =
     (if status = Some ''running'' \<and> shouldLogoutOnRunning st
      then [SetShouldLogout False, SetTimeout LogoutCallback 1000] else [])"

text \<open>Third effect: start the shutdown timer when the status endpoint starts failing.\<close>

definition effect_shutdown_timer :: "provider \<Rightarrow> status_query \<Rightarrow> command list" where
  "effect_shutdown_timer st q =
     (if data q = Some ''shutting-down'' \<and> \<not> startShutdownTimer st
         \<and> (isError q \<or> failureCount q > 0)
      then [SetStartShutdownTimer True, SetTimeout ShutdownCompleteCallback (30 * MS_PER_SECOND)]
      else [])"

text \<open>
  Modelled from the spec: the hook \<^verbatim>\<open>useLocalStorage2\<close> of \<^verbatim>\<open>@/hooks/use-local-storage2\<close>,
  which is not among the sources. The spec describes a persisted key-value store holding a
  boolean under \<^verbatim>\<open>should-logout-on-running\<close>: the setter replaces the value, the next
  render reads it, and a later mount starts from it.
\<close>

definition setShouldLogout :: "bool \<Rightarrow> provider \<Rightarrow> provider" where
  "setShouldLogout b st = st\<lparr>shouldLogoutOnRunning := b\<rparr>"

fun exec :: "command \<Rightarrow> provider \<Rightarrow> provider" where
  "exec (SetShouldLogout b) st = setShouldLogout b st"
| "exec (SetStartShutdownTimer b) st = st\<lparr>startShutdownTimer := b\<rparr>"
| "exec (SetTimeout cb ms) st =
     st\<lparr>timers := timers st @ [(clock st + ms, cb)],
        calls := calls st @ [(clock st, SetTimeoutCall cb ms)]\<rparr>"

text \<open>
  One render followed by its effects. A render that throws commits nothing: the hook after the
  \<^verbatim>\<open>throw\<close> is not reached and no effect runs. Otherwise the three effects run in source
  order on the values of this render, and their commands are carried out.

  The effects are run after every render, without their dependency lists. Nothing is lost: the
  body of each effect does something only under a condition on values that are all in its
  dependency list, and doing it makes the condition false (the flag it tests is the flag it
  sets). So a render in which a condition holds is one in which a dependency has changed, and
  the effect runs there in either reading.
\<close>

definition render_pass :: "provider \<Rightarrow> provider" where
  "render_pass st =
     (let q = systemStatusQ st in
      if throws st q then st\<lparr>shown := Some (GlobalSystemStateProvider st q None)\<rparr>
      else
        let (p, refs) = usePreviousDistinct (prevDistinct st) (data q);
            cmds = effect_owe_logout st (data q) @ effect_logout st (data q)
                     @ effect_shutdown_timer st q
        in fold exec cmds
             (st\<lparr>prevDistinct := refs, shown := Some (GlobalSystemStateProvider st q p)\<rparr>))"

definition cells :: "provider \<Rightarrow> bool \<times> bool \<times> bool \<times> bool" where
  "cells st = (triggered st, shouldLogoutOnRunning st, startShutdownTimer st, shutdownComplete st)"

text \<open>A render whose effects changed a state cell is followed by another render.\<close>

definition settle :: "provider \<Rightarrow> provider" where
  "settle st =
     (let st' = render_pass st in if cells st' \<noteq> cells st then render_pass st' else st')"

section \<open>Events\<close>

text \<open>\<^verbatim>\<open>onMutate\<close> and \<^verbatim>\<open>onSuccess\<close>, shared by \<^verbatim>\<open>useRestart\<close> and \<^verbatim>\<open>useShutdown\<close>.\<close>

definition onMutate :: "provider \<Rightarrow> provider" where
  "onMutate st = st\<lparr>triggered := True\<rparr>"

definition onSuccess :: "provider \<Rightarrow> provider" where
  "onSuccess st = st\<lparr>calls := calls st @ [(clock st, CancelStatusQuery)]\<rparr>"

fun run_callback :: "callback \<Rightarrow> provider \<Rightarrow> provider" where
  "run_callback ShutdownCompleteCallback st = settle (st\<lparr>shutdownComplete := True\<rparr>)"
| "run_callback LogoutCallback st =
     st\<lparr>calls := calls st @
        [(clock st, CancelQueries), (clock st, RemoveJwt), (clock st, Navigate ''/'')]\<rparr>"

text \<open>
  What can happen to a mounted provider: a descendant calls \<^verbatim>\<open>restart()\<close> or
  \<^verbatim>\<open>shutdown()\<close> (the library runs \<^verbatim>\<open>onMutate\<close>, then sends the request); the request
  succeeds; the query delivers a new result; time passes; a pending timer that is due fires.
  An event that changes a state cell or the query result is followed by a render.

  The events are not restricted further: a mutation may be invoked whatever is on screen, a due
  timer may fire late and in any order, and after a render that threw the provider goes on with
  the state it had (what the ancestor error boundary does with it is not in this file). What
  is proved for all events holds for the narrower behaviour of the browser too; the event
  sequences on which a claim is shown to fail keep to what a browser does.
\<close>

datatype event =
    Invoke mutation
  | MutationSuccess
  | Poll status_query
  | Elapse nat
  | Fire nat

fun step :: "event \<Rightarrow> provider \<Rightarrow> provider" where
  "step (Invoke m) st =
     settle ((onMutate st)\<lparr>calls := calls st @ [(clock st, Mutate m)]\<rparr>)"
| "step MutationSuccess st = onSuccess st"
| "step (Poll q) st = settle (st\<lparr>systemStatusQ := q\<rparr>)"
| "step (Elapse ms) st = st\<lparr>clock := clock st + ms\<rparr>"
| "step (Fire i) st =
     (if i < length (timers st) \<and> fst (timers st ! i) \<le> clock st
      then run_callback (snd (timers st ! i))
             (st\<lparr>timers := take i (timers st) @ drop (Suc i) (timers st)\<rparr>)
      else st)"

definition run :: "event list \<Rightarrow> provider \<Rightarrow> provider" where
  "run evs st = fold step evs st"

text \<open>
  Mounting: the state cells at their initial values (\<open>stored\<close> is what local storage holds
  for \<^verbatim>\<open>should-logout-on-running\<close>, \<^verbatim>\<open>false\<close> when absent), the query loading, and the first
  render.
\<close>

definition mount :: "bool \<Rightarrow> provider" where
  "mount stored =
     settle \<lparr>triggered = False, shouldLogoutOnRunning = stored, startShutdownTimer = False,
             shutdownComplete = False,
             prevDistinct = unmounted_refs,
             systemStatusQ = loading_query, clock = 0, timers = [], calls = [],
             shown = None\<rparr>"

section \<open>Query results and event sequences used as concrete inputs\<close>

text \<open>A successful probe; a probe being retried after \<open>n\<close> failures, the last data kept and
  no error object yet; a probe that has failed, the last data kept next to the error.\<close>

definition probe_ok :: "SystemStatus \<Rightarrow> status_query" where
  "probe_ok s =
     \<lparr>data = Some s, error = None, isError = False, isLoading = False, failureCount = 0\<rparr>"

definition probe_retrying :: "SystemStatus \<Rightarrow> nat \<Rightarrow> status_query" where
  "probe_retrying s n =
     \<lparr>data = Some s, error = None, isError = False, isLoading = False, failureCount = n\<rparr>"

definition probe_failed :: "SystemStatus \<Rightarrow> string \<Rightarrow> status_query" where
  "probe_failed s e =
     \<lparr>data = Some s, error = Some e, isError = True, isLoading = False, failureCount = 1\<rparr>"

text \<open>
  A shutdown requested from this client and reported by the backend; the same, continued until
  the probe fails and the 30-second timer has fired; and then the device switched on again
  while the page is still open, so that the probe answers \<^verbatim>\<open>'running'\<close> once more.
\<close>

definition shutdown_requested :: "event list" where
  "shutdown_requested =
     [Poll (probe_ok ''running''), Invoke Shutdown, MutationSuccess,
      Poll (probe_ok ''shutting-down'')]"

definition until_shutdown_complete :: "event list" where
  "until_shutdown_complete =
     shutdown_requested @ [Poll (probe_retrying ''shutting-down'' 1), Elapse 30000, Fire 0]"

definition shutdown_then_power_on :: "event list" where
  "shutdown_then_power_on = until_shutdown_complete @ [Poll (probe_ok ''running'')]"

text \<open>A restart requested from this client and reported by the backend; the same, continued
  up to the navigation to the root path.\<close>

definition restart_requested :: "event list" where
  "restart_requested =
     [Poll (probe_ok ''running''), Invoke Restart, MutationSuccess,
      Poll (probe_ok ''restarting'')]"

definition restart_cycle :: "event list" where
  "restart_cycle =
     restart_requested @
     [Poll (probe_retrying ''restarting'' 1), Poll (probe_ok ''running''), Elapse 1000, Fire 0]"

text \<open>A shutdown that this client did not request: \<open>triggered\<close> stays false.\<close>

definition shutdown_elsewhere :: "event list" where
  "shutdown_elsewhere = [Poll (probe_ok ''running''), Poll (probe_ok ''shutting-down'')]"

text \<open>The references of \<^verbatim>\<open>usePreviousDistinct\<close> after a sequence of renders with the
  given values.\<close>

definition observed :: "'a distinct_refs \<Rightarrow> 'a option list \<Rightarrow> 'a distinct_refs" where
  "observed r vs = fold (\<lambda>v r'. snd (usePreviousDistinct r' v)) vs r"

text \<open>The calls that started the shutdown timer.\<close>

definition shutdown_timer_starts :: "provider \<Rightarrow> (nat \<times> action) list" where
  "shutdown_timer_starts st =
     filter (\<lambda>c. snd c = SetTimeoutCall ShutdownCompleteCallback (30 * MS_PER_SECOND)) (calls st)"

section \<open>Auxiliary notions for the proofs\<close>

text \<open>The timers one render starts: the callback and the delay handed to \<^verbatim>\<open>setTimeout\<close>.\<close>

definition new_timers :: "provider \<Rightarrow> (callback \<times> nat) list" where
  "new_timers st =
     (if throws st (systemStatusQ st) then []
      else (if data (systemStatusQ st) = Some ''running'' \<and> shouldLogoutOnRunning st
            then [(LogoutCallback, 1000)] else []) @
           (if data (systemStatusQ st) = Some ''shutting-down'' \<and> \<not> startShutdownTimer st \<and>
               (isError (systemStatusQ st) \<or> failureCount (systemStatusQ st) > 0)
            then [(ShutdownCompleteCallback, 30 * MS_PER_SECOND)] else []))"

text \<open>
  The invariant behind the shutdown timer: before \<open>startShutdownTimer\<close> is set no shutdown
  timer exists and \<open>shutdownComplete\<close> is false; afterwards exactly one was started, every
  pending shutdown timer is due 30 seconds after that start, and \<open>shutdownComplete\<close> is set
  only once that time has come. The terminal message is on screen only with
  \<open>shutdownComplete\<close>.
\<close>

definition shutdown_timer_inv :: "provider \<Rightarrow> bool" where
  "shutdown_timer_inv st \<longleftrightarrow>
     (\<not> startShutdownTimer st \<longrightarrow>
        shutdown_timer_starts st = [] \<and> \<not> shutdownComplete st \<and>
        (\<forall>d. (d, ShutdownCompleteCallback) \<notin> set (timers st))) \<and>
     (startShutdownTimer st \<longrightarrow>
        (\<exists>t0. shutdown_timer_starts st =
                 [(t0, SetTimeoutCall ShutdownCompleteCallback (30 * MS_PER_SECOND))] \<and>
              (\<forall>d. (d, ShutdownCompleteCallback) \<in> set (timers st) \<longrightarrow>
                     d = t0 + 30 * MS_PER_SECOND) \<and>
              (shutdownComplete st \<longrightarrow> t0 + 30 * MS_PER_SECOND \<le> clock st))) \<and>
     (shown st = Some (Inr ShutdownCompleteMessage) \<longrightarrow> shutdownComplete st)"

section \<open>Facts about one render and about settling\<close>

lemmas effect_defs =
  effect_owe_logout_def effect_logout_def effect_shutdown_timer_def setShouldLogout_def

lemmas model_defs =
  settle_def render_pass_def Let_def throws_def loading_query_def usePreviousDistinct_def
  unmounted_refs_def GlobalSystemStateProvider_def view_def statusToShow_def prevStatus_def switch_screen_def
  effect_defs cells_def onMutate_def onSuccess_def probe_ok_def
  probe_retrying_def probe_failed_def MS_PER_SECOND_def run_def mount_def

lemma render_Inl_iff: "GlobalSystemStateProvider st q p = Inl e \<longleftrightarrow> error q = Some e \<and> \<not> triggered st"
  by (auto simp: GlobalSystemStateProvider_def split: option.splits)

lemma render_no_throw: "\<not> throws st q \<Longrightarrow> GlobalSystemStateProvider st q p = Inr (view st q p)"
  by (auto simp: GlobalSystemStateProvider_def throws_def split: option.splits)

lemma render_only_flags:
  "triggered st' = triggered st \<Longrightarrow> shutdownComplete st' = shutdownComplete st \<Longrightarrow>
   GlobalSystemStateProvider st' q p = GlobalSystemStateProvider st q p"
  by (simp add: GlobalSystemStateProvider_def view_def Let_def split: option.splits)

lemma render_terminal_complete:
  "GlobalSystemStateProvider st q p = Inr ShutdownCompleteMessage \<Longrightarrow> shutdownComplete st"
  by (auto simp: GlobalSystemStateProvider_def view_def switch_screen_def Let_def split: option.splits if_splits)

lemma exec_keeps [simp]:
  "triggered (exec c st) = triggered st"
  "shutdownComplete (exec c st) = shutdownComplete st"
  "clock (exec c st) = clock st"
  "systemStatusQ (exec c st) = systemStatusQ st"
  "prevDistinct (exec c st) = prevDistinct st"
  "shown (exec c st) = shown st"
  by (cases c; simp add: setShouldLogout_def)+

lemma render_pass_keeps [simp]:
  "triggered (render_pass st) = triggered st"
  "shutdownComplete (render_pass st) = shutdownComplete st"
  "clock (render_pass st) = clock st"
  "systemStatusQ (render_pass st) = systemStatusQ st"
  by (simp_all add: render_pass_def Let_def effect_defs split: prod.splits)

lemma throws_render_pass [simp]: "throws (render_pass st) q = throws st q"
  by (simp add: throws_def)

lemma render_pass_shouldLogout:
  "shouldLogoutOnRunning (render_pass st) =
     (if throws st (systemStatusQ st) then shouldLogoutOnRunning st
      else if data (systemStatusQ st) = Some ''running'' then False
      else shouldLogoutOnRunning st \<or> triggered st)"
  by (auto simp: render_pass_def Let_def effect_defs split: prod.splits)

lemma render_pass_startShutdownTimer:
  "startShutdownTimer (render_pass st) =
     (startShutdownTimer st \<or>
      (\<not> throws st (systemStatusQ st) \<and> data (systemStatusQ st) = Some ''shutting-down'' \<and>
       (isError (systemStatusQ st) \<or> failureCount (systemStatusQ st) > 0)))"
  by (auto simp: render_pass_def Let_def effect_defs split: prod.splits)

lemma render_pass_timers:
  "timers (render_pass st) = timers st @ map (\<lambda>(cb, ms). (clock st + ms, cb)) (new_timers st)"
  by (auto simp: render_pass_def Let_def effect_defs new_timers_def split: prod.splits)

lemma render_pass_calls:
  "calls (render_pass st) =
     calls st @ map (\<lambda>(cb, ms). (clock st, SetTimeoutCall cb ms)) (new_timers st)"
  by (auto simp: render_pass_def Let_def effect_defs new_timers_def split: prod.splits)

lemma render_pass_shown:
  "shown (render_pass st) =
     Some (GlobalSystemStateProvider st (systemStatusQ st)
             (fst (usePreviousDistinct (prevDistinct st) (data (systemStatusQ st)))))"
  by (auto simp: render_pass_def Let_def effect_defs GlobalSystemStateProvider_def throws_def
        split: prod.splits option.splits)

lemma render_pass_prevDistinct:
  "prevDistinct (render_pass st) =
     (if throws st (systemStatusQ st) then prevDistinct st
      else snd (usePreviousDistinct (prevDistinct st) (data (systemStatusQ st))))"
  by (auto simp: render_pass_def Let_def effect_defs split: prod.splits)

text \<open>Rendering again with the same value leaves the hook as it is.\<close>

lemma usePreviousDistinct_again:
  "fst (usePreviousDistinct (snd (usePreviousDistinct r v)) v) = fst (usePreviousDistinct r v)"
  "snd (usePreviousDistinct (snd (usePreviousDistinct r v)) v) = snd (usePreviousDistinct r v)"
  by (auto simp: usePreviousDistinct_def)

text \<open>After one render with its effects, a second render starts no timer.\<close>

lemma new_timers_render_pass [simp]: "new_timers (render_pass st) = []"
  by (auto simp: new_timers_def render_pass_shouldLogout render_pass_startShutdownTimer)

lemma settle_cases: "settle st = render_pass st \<or> settle st = render_pass (render_pass st)"
  by (simp add: settle_def Let_def)

lemma settle_keeps [simp]:
  "triggered (settle st) = triggered st"
  "shutdownComplete (settle st) = shutdownComplete st"
  "clock (settle st) = clock st"
  "systemStatusQ (settle st) = systemStatusQ st"
  by (simp_all add: settle_def Let_def)

lemma throws_settle [simp]: "throws (settle st) q = throws st q"
  by (simp add: throws_def)

lemma settle_shouldLogout:
  "shouldLogoutOnRunning (settle st) =
     (if throws st (systemStatusQ st) then shouldLogoutOnRunning st
      else if data (systemStatusQ st) = Some ''running'' then False
      else shouldLogoutOnRunning st \<or> triggered st)"
  using settle_cases [of st] by (auto simp: render_pass_shouldLogout)

lemma settle_startShutdownTimer:
  "startShutdownTimer (settle st) =
     (startShutdownTimer st \<or>
      (\<not> throws st (systemStatusQ st) \<and> data (systemStatusQ st) = Some ''shutting-down'' \<and>
       (isError (systemStatusQ st) \<or> failureCount (systemStatusQ st) > 0)))"
  using settle_cases [of st] by (auto simp: render_pass_startShutdownTimer)

lemma settle_timers:
  "timers (settle st) = timers st @ map (\<lambda>(cb, ms). (clock st + ms, cb)) (new_timers st)"
  using settle_cases [of st] by (auto simp: render_pass_timers)

lemma settle_calls:
  "calls (settle st) =
     calls st @ map (\<lambda>(cb, ms). (clock st, SetTimeoutCall cb ms)) (new_timers st)"
  using settle_cases [of st] by (auto simp: render_pass_calls)

lemma settle_shown:
  "shown (settle st) =
     Some (GlobalSystemStateProvider st (systemStatusQ st)
             (fst (usePreviousDistinct (prevDistinct st) (data (systemStatusQ st)))))"
proof -
  let ?q = "systemStatusQ st"
  let ?p = "fst (usePreviousDistinct (prevDistinct st) (data ?q))"
  have one: "shown (render_pass st) = Some (GlobalSystemStateProvider st ?q ?p)"
    by (rule render_pass_shown)
  have two: "shown (render_pass (render_pass st)) = Some (GlobalSystemStateProvider st ?q ?p)"
  proof (cases "throws st ?q")
    case True
    then show ?thesis
      by (simp add: render_pass_shown render_pass_prevDistinct
            render_only_flags [of "render_pass st" st])
  next
    case False
    then show ?thesis
      by (simp add: render_pass_shown render_pass_prevDistinct usePreviousDistinct_again
            render_only_flags [of "render_pass st" st])
  qed
  from settle_cases [of st] one two show ?thesis by auto
qed

lemma settle_prevDistinct:
  "prevDistinct (settle st) =
     (if throws st (systemStatusQ st) then prevDistinct st
      else snd (usePreviousDistinct (prevDistinct st) (data (systemStatusQ st))))"
  using settle_cases [of st]
  by (auto simp: render_pass_prevDistinct usePreviousDistinct_again)

lemma new_timers_settle [simp]: "new_timers (settle st) = []"
  using settle_cases [of st] by auto

text \<open>Settling reaches a fixed point: one more render changes nothing.\<close>

lemma render_pass_settle: "render_pass (settle st) = settle st"
proof (rule provider.equality)
  show "shown (render_pass (settle st)) = shown (settle st)"
    by (cases "throws st (systemStatusQ st)")
       (simp_all add: render_pass_shown settle_shown settle_prevDistinct usePreviousDistinct_again
          render_only_flags [of "settle st" st])
  show "prevDistinct (render_pass (settle st)) = prevDistinct (settle st)"
    by (simp add: render_pass_prevDistinct settle_prevDistinct usePreviousDistinct_again)
  show "shouldLogoutOnRunning (render_pass (settle st)) = shouldLogoutOnRunning (settle st)"
    by (auto simp: render_pass_shouldLogout settle_shouldLogout)
  show "startShutdownTimer (render_pass (settle st)) = startShutdownTimer (settle st)"
    by (auto simp: render_pass_startShutdownTimer settle_startShutdownTimer)
  show "provider.more (render_pass (settle st)) = provider.more (settle st)"
    by simp
qed (simp_all add: render_pass_timers render_pass_calls)

section \<open>Facts about events\<close>

lemma step_Poll_fields:
  "triggered (step (Poll q) st) = triggered st"
  "shutdownComplete (step (Poll q) st) = shutdownComplete st"
  "clock (step (Poll q) st) = clock st"
  "systemStatusQ (step (Poll q) st) = q"
  by simp_all

lemma step_Poll_shown:
  "shown (step (Poll q) st) =
     Some (GlobalSystemStateProvider st q (fst (usePreviousDistinct (prevDistinct st) (data q))))"
  by (simp add: settle_shown render_only_flags [of "st\<lparr>systemStatusQ := q\<rparr>" st])

lemma step_Poll_timers:
  "timers (step (Poll q) st) =
     timers st @ map (\<lambda>(cb, ms). (clock st + ms, cb)) (new_timers (st\<lparr>systemStatusQ := q\<rparr>))"
  by (simp add: settle_timers)

lemma step_Poll_calls:
  "calls (step (Poll q) st) =
     calls st @
     map (\<lambda>(cb, ms). (clock st, SetTimeoutCall cb ms)) (new_timers (st\<lparr>systemStatusQ := q\<rparr>))"
  by (simp add: settle_calls)

lemma step_Poll_shouldLogout:
  "shouldLogoutOnRunning (step (Poll q) st) =
     (if throws st q then shouldLogoutOnRunning st
      else if data q = Some ''running'' then False
      else shouldLogoutOnRunning st \<or> triggered st)"
  by (simp add: settle_shouldLogout throws_def)

lemma step_Poll_startShutdownTimer:
  "startShutdownTimer (step (Poll q) st) =
     (startShutdownTimer st \<or>
      (\<not> throws st q \<and> data q = Some ''shutting-down'' \<and> (isError q \<or> failureCount q > 0)))"
  by (simp add: settle_startShutdownTimer throws_def)

text \<open>The only event that changes \<open>triggered\<close> is a call of \<^verbatim>\<open>restart()\<close> or
  \<^verbatim>\<open>shutdown()\<close>, and it sets it.\<close>

lemma step_triggered: "triggered (step ev st) \<longleftrightarrow> triggered st \<or> (\<exists>m. ev = Invoke m)"
proof (cases ev)
  case (Fire i)
  then show ?thesis by (cases "snd (timers st ! i)") auto
qed (simp_all add: onMutate_def onSuccess_def)

lemma run_snoc: "run (evs @ [ev]) st = step ev (run evs st)"
  by (simp add: run_def)

lemma run_triggered: "triggered st \<Longrightarrow> triggered (run evs st)"
  by (induction evs rule: rev_induct) (simp_all add: run_snoc step_triggered run_def del: step.simps)

section \<open>The shutdown timer invariant\<close>

lemma settle_starts:
  "shutdown_timer_starts (settle st) =
     shutdown_timer_starts st @
     (if \<not> throws st (systemStatusQ st) \<and> data (systemStatusQ st) = Some ''shutting-down'' \<and>
         \<not> startShutdownTimer st \<and>
         (isError (systemStatusQ st) \<or> failureCount (systemStatusQ st) > 0)
      then [(clock st, SetTimeoutCall ShutdownCompleteCallback (30 * MS_PER_SECOND))] else [])"
  by (simp add: shutdown_timer_starts_def settle_calls new_timers_def MS_PER_SECOND_def)

lemma settle_shutdown_timers:
  "(d, ShutdownCompleteCallback) \<in> set (timers (settle st)) \<longleftrightarrow>
     (d, ShutdownCompleteCallback) \<in> set (timers st) \<or>
     (\<not> throws st (systemStatusQ st) \<and> data (systemStatusQ st) = Some ''shutting-down'' \<and>
         \<not> startShutdownTimer st \<and>
         (isError (systemStatusQ st) \<or> failureCount (systemStatusQ st) > 0) \<and>
      d = clock st + 30 * MS_PER_SECOND)"
  by (auto simp: settle_timers new_timers_def)

lemma settle_inv:
  assumes "shutdown_timer_inv st"
  shows "shutdown_timer_inv (settle st)"
proof -
  have shown_ok:
    "shown (settle st) = Some (Inr ShutdownCompleteMessage) \<longrightarrow> shutdownComplete (settle st)"
    by (auto simp: settle_shown dest: render_terminal_complete)
  show ?thesis
  proof (cases "startShutdownTimer st")
    case True
    with assms shown_ok show ?thesis
      unfolding shutdown_timer_inv_def
      by (simp add: settle_starts settle_shutdown_timers settle_startShutdownTimer)
  next
    case False
    with assms shown_ok show ?thesis
      unfolding shutdown_timer_inv_def
      by (auto simp: settle_starts settle_shutdown_timers settle_startShutdownTimer)
  qed
qed

lemma inv_irrelevant [simp]:
  "shutdown_timer_inv (st\<lparr>systemStatusQ := q\<rparr>) = shutdown_timer_inv st"
  "shutdown_timer_inv (st\<lparr>triggered := b\<rparr>) = shutdown_timer_inv st"
  by (simp_all add: shutdown_timer_inv_def shutdown_timer_starts_def)

lemma inv_other_call:
  "\<forall>c \<in> set cs. snd c \<noteq> SetTimeoutCall ShutdownCompleteCallback (30 * MS_PER_SECOND) \<Longrightarrow>
   shutdown_timer_inv (st\<lparr>calls := calls st @ cs\<rparr>) = shutdown_timer_inv st"
  by (simp add: shutdown_timer_inv_def shutdown_timer_starts_def)

lemma inv_elapse: "shutdown_timer_inv st \<Longrightarrow> shutdown_timer_inv (st\<lparr>clock := clock st + ms\<rparr>)"
  unfolding shutdown_timer_inv_def shutdown_timer_starts_def
  by (auto intro: trans_le_add1)

lemma set_remove_nth: "set (take i xs @ drop (Suc i) xs) \<subseteq> set xs"
  by (auto dest: in_set_takeD in_set_dropD)

lemma inv_remove_timer:
  "shutdown_timer_inv st \<Longrightarrow>
   shutdown_timer_inv (st\<lparr>timers := take i (timers st) @ drop (Suc i) (timers st)\<rparr>)"
  unfolding shutdown_timer_inv_def shutdown_timer_starts_def
  using set_remove_nth [of i "timers st"] by (auto simp: subset_iff)

lemma inv_complete:
  assumes "shutdown_timer_inv st"
    and "(d, ShutdownCompleteCallback) \<in> set (timers st)"
    and "d \<le> clock st"
  shows "shutdown_timer_inv (st\<lparr>timers := take i (timers st) @ drop (Suc i) (timers st),
                                shutdownComplete := True\<rparr>)"
proof -
  from assms(1,2) have started: "startShutdownTimer st"
    unfolding shutdown_timer_inv_def by blast
  with assms(1) obtain t0 where
    t0: "shutdown_timer_starts st =
           [(t0, SetTimeoutCall ShutdownCompleteCallback (30 * MS_PER_SECOND))]"
    and due: "\<forall>d. (d, ShutdownCompleteCallback) \<in> set (timers st) \<longrightarrow>
                 d = t0 + 30 * MS_PER_SECOND"
    unfolding shutdown_timer_inv_def by blast
  from due assms(2,3) have "t0 + 30 * MS_PER_SECOND \<le> clock st" by auto
  with started t0 due show ?thesis
    unfolding shutdown_timer_inv_def shutdown_timer_starts_def
    using set_remove_nth [of i "timers st"] by (auto simp: subset_iff)
qed

lemma step_inv:
  assumes "shutdown_timer_inv st"
  shows "shutdown_timer_inv (step ev st)"
proof (cases ev)
  case (Invoke m)
  have "shutdown_timer_inv ((onMutate st)\<lparr>calls := calls st @ [(clock st, Mutate m)]\<rparr>)"
    using assms inv_other_call [of "[(clock st, Mutate m)]" "onMutate st"]
    by (simp add: onMutate_def)
  with Invoke show ?thesis by (simp add: settle_inv)
next
  case MutationSuccess
  with assms inv_other_call [of "[(clock st, CancelStatusQuery)]" st]
  show ?thesis by (simp add: onSuccess_def)
next
  case (Poll q)
  with assms show ?thesis by (simp add: settle_inv)
next
  case (Elapse ms)
  with assms show ?thesis by (simp add: inv_elapse)
next
  case (Fire i)
  show ?thesis
  proof (cases "i < length (timers st) \<and> fst (timers st ! i) \<le> clock st")
    case False
    with Fire assms show ?thesis by auto
  next
    case True
    let ?rest = "st\<lparr>timers := take i (timers st) @ drop (Suc i) (timers st)\<rparr>"
    show ?thesis
    proof (cases "snd (timers st ! i)")
      case LogoutCallback
      have "shutdown_timer_inv ?rest" using assms by (rule inv_remove_timer)
      with inv_other_call
        [of "[(clock st, CancelQueries), (clock st, RemoveJwt), (clock st, Navigate ''/'')]" ?rest]
      have "shutdown_timer_inv (run_callback LogoutCallback ?rest)" by simp
      with Fire True LogoutCallback show ?thesis by simp
    next
      case ShutdownCompleteCallback
      with True have mem: "(fst (timers st ! i), ShutdownCompleteCallback) \<in> set (timers st)"
        by (metis nth_mem prod.collapse)
      from inv_complete [OF assms mem, of i] True
      have "shutdown_timer_inv (run_callback ShutdownCompleteCallback ?rest)"
        by (simp add: settle_inv)
      with Fire True ShutdownCompleteCallback show ?thesis by simp
    qed
  qed
qed

lemma mount_inv: "shutdown_timer_inv (mount stored)"
  unfolding mount_def
  by (rule settle_inv) (simp add: shutdown_timer_inv_def shutdown_timer_starts_def)

lemma run_inv: "shutdown_timer_inv st \<Longrightarrow> shutdown_timer_inv (run evs st)"
  by (induction evs rule: rev_induct) (simp_all add: run_snoc step_inv run_def del: step.simps)

lemma reachable_inv: "shutdown_timer_inv (run evs (mount stored))"
  by (rule run_inv [OF mount_inv])

section \<open>The hook before any status was seen\<close>

lemma observed_snoc: "observed r (vs @ [v]) = snd (usePreviousDistinct (observed r vs) v)"
  by (simp add: observed_def)

lemma observed_undefined:
  "observed (unmounted_refs :: 'a distinct_refs) (replicate n None) =
     (if n = 0 then unmounted_refs else \<lparr>first_mount = False, prevRef = None, curRef = None\<rparr>)"
proof (induction n)
  case 0
  show ?case by (simp add: observed_def)
next
  case (Suc n)
  have "replicate (Suc n) (None :: 'a option) = replicate n None @ [None]"
    by (simp add: replicate_append_same)
  then have "observed (unmounted_refs :: 'a distinct_refs) (replicate (Suc n) None) =
          snd (usePreviousDistinct (observed unmounted_refs (replicate n None)) None)"
    by (simp only: observed_snoc)
  with Suc show ?case by (simp add: usePreviousDistinct_def unmounted_refs_def)
qed

lemma first_defined_previous:
  "fst (usePreviousDistinct (observed unmounted_refs (replicate n None)) v) = None"
  unfolding observed_undefined by (simp add: usePreviousDistinct_def unmounted_refs_def)

lemmas scenario_defs =
  shutdown_requested_def until_shutdown_complete_def shutdown_then_power_on_def
  restart_requested_def restart_cycle_def shutdown_elsewhere_def

section \<open>The claims\<close>

text \<open>
  C1. For every render, \<open>statusToShow\<close> is the previous status when \<open>triggered\<close> is true
  and the polled status is \<^verbatim>\<open>'running'\<close>, and the polled status otherwise. The second half of
  the claim, that with \<open>triggered\<close>, status \<^verbatim>\<open>'running'\<close> and previous status
  \<^verbatim>\<open>'shutting-down'\<close> the shutting-down screen is rendered, holds only while
  \<open>shutdownComplete\<close> is false: the check for the terminal message comes before the switch
  and reads \<open>statusToShow\<close> too, so once \<open>shutdownComplete\<close> is true the terminal message is
  rendered instead. In neither case are the children rendered.
\<close>

theorem masking_rule:
  "statusToShow (triggered st) (data q) (prevStatus p) =
     (if triggered st \<and> data q = Some ''running'' then Some (prevStatus p) else data q) \<and>
   (wf_query q \<and> triggered st \<and> data q = Some ''running'' \<and>
    prevStatus p = ''shutting-down'' \<longrightarrow>
      GlobalSystemStateProvider st q p =
        Inr (if shutdownComplete st then ShutdownCompleteMessage else ShuttingDownScreen) \<and>
      GlobalSystemStateProvider st q p \<noteq> Inr Children)"
  by (auto simp: statusToShow_def wf_query_def GlobalSystemStateProvider_def view_def switch_screen_def
        split: option.splits)

theorem masking_rule_witness:
  "wf_query (probe_ok ''running'') \<and>
   triggered (run shutdown_requested (mount False)) \<and>
   data (probe_ok ''running'') = Some ''running'' \<and>
   prevStatus (Some ''shutting-down'') = ''shutting-down'' \<and>
   GlobalSystemStateProvider (run shutdown_requested (mount False)) (probe_ok ''running'') (Some ''shutting-down'')
     = Inr ShuttingDownScreen"
  using masking_rule
    [of "run shutdown_requested (mount False)" "probe_ok ''running''" "Some ''shutting-down''"]
  by (simp add: scenario_defs model_defs wf_query_def)

text \<open>
  The input on which the claim as stated fails: after a completed shutdown the probe answers
  \<^verbatim>\<open>'running'\<close> again; \<open>triggered\<close> is true, the previous status is
  \<^verbatim>\<open>'shutting-down'\<close>, and the screen is the terminal message, not the shutting-down screen.
\<close>

theorem masking_shows_terminal_message:
  "triggered (run shutdown_then_power_on (mount False)) \<and>
   data (systemStatusQ (run shutdown_then_power_on (mount False))) = Some ''running'' \<and>
   wf_query (systemStatusQ (run shutdown_then_power_on (mount False))) \<and>
   prevStatus (prevRef (prevDistinct (run shutdown_then_power_on (mount False))))
     = ''shutting-down'' \<and>
   shown (run shutdown_then_power_on (mount False)) = Some (Inr ShutdownCompleteMessage) \<and>
   GlobalSystemStateProvider (run shutdown_then_power_on (mount False)) (probe_ok ''running'')
       (Some ''shutting-down'')
     \<noteq> Inr ShuttingDownScreen"
  by (simp add: scenario_defs model_defs wf_query_def)

text \<open>
  C2. The claim ties the terminal message to the polled status; the component tests
  \<open>statusToShow\<close>. What holds: when the first fetch is not in flight, the terminal message is
  rendered exactly when \<open>shutdownComplete\<close> is true, the render does not throw the query
  error, and \<open>statusToShow\<close> is \<^verbatim>\<open>'shutting-down'\<close>, that is, the polled status is
  \<^verbatim>\<open>'shutting-down'\<close>, or \<open>triggered\<close> is true, the polled status is \<^verbatim>\<open>'running'\<close> and
  the previous status is \<^verbatim>\<open>'shutting-down'\<close>.
\<close>

theorem terminal_message_iff:
  "\<not> isLoading q \<Longrightarrow>
   GlobalSystemStateProvider st q p = Inr ShutdownCompleteMessage \<longleftrightarrow>
     shutdownComplete st \<and> \<not> throws st q \<and>
     (data q = Some ''shutting-down'' \<or>
      triggered st \<and> data q = Some ''running'' \<and> prevStatus p = ''shutting-down'')"
  by (auto simp: statusToShow_def throws_def GlobalSystemStateProvider_def view_def switch_screen_def
        split: option.splits)

theorem terminal_message_iff_witness:
  "\<not> isLoading (probe_ok ''running'') \<and>
   GlobalSystemStateProvider (run until_shutdown_complete (mount False)) (probe_ok ''running'')
       (Some ''shutting-down'')
     = Inr ShutdownCompleteMessage \<and>
   shutdownComplete (run until_shutdown_complete (mount False)) \<and>
   triggered (run until_shutdown_complete (mount False))"
  using terminal_message_iff
    [of "probe_ok ''running''" "run until_shutdown_complete (mount False)" "Some ''shutting-down''"]
  by (simp add: scenario_defs model_defs)

text \<open>
  The input on which the claim as stated fails: the first fetch is over, the polled status is
  \<^verbatim>\<open>'running'\<close>, not \<^verbatim>\<open>'shutting-down'\<close>, and the terminal message is on screen.
\<close>

theorem terminal_message_with_status_running:
  "\<not> isLoading (systemStatusQ (run shutdown_then_power_on (mount False))) \<and>
   data (systemStatusQ (run shutdown_then_power_on (mount False))) \<noteq> Some ''shutting-down'' \<and>
   shutdownComplete (run shutdown_then_power_on (mount False)) \<and>
   shown (run shutdown_then_power_on (mount False)) = Some (Inr ShutdownCompleteMessage)"
  by (simp add: scenario_defs model_defs)

text \<open>
  C3. The timer effect belongs to a render that returns. What holds: when the query delivers a
  result with status \<^verbatim>\<open>'shutting-down'\<close> and a failing probe (\<open>isError\<close> or a failure
  count above zero), the timer has not been started, and the render does not throw the query
  error (no error object, or \<open>triggered\<close>), then \<open>startShutdownTimer\<close> is set and exactly one
  timer of \<open>30 * MS_PER_SECOND\<close> is started; rendering again starts no other; the timer does
  nothing before the 30 seconds have passed, and when it fires after them \<open>shutdownComplete\<close>
  is true. On every run of the component from its mount at most
  one such timer is ever started, and whenever the terminal message is on screen the timer was
  started at least 30 seconds before.
\<close>

theorem shutdown_timer_rule:
  "(data q = Some ''shutting-down'' \<and> (isError q \<or> failureCount q > 0) \<and>
    \<not> startShutdownTimer st \<and> \<not> throws st q \<longrightarrow>
      startShutdownTimer (step (Poll q) st) \<and>
      timers (step (Poll q) st) =
        timers st @ [(clock st + 30 * MS_PER_SECOND, ShutdownCompleteCallback)] \<and>
      calls (step (Poll q) st) =
        calls st @ [(clock st, SetTimeoutCall ShutdownCompleteCallback (30 * MS_PER_SECOND))] \<and>
      timers (step (Poll q) (step (Poll q) st)) = timers (step (Poll q) st) \<and>
      (d < 30 * MS_PER_SECOND \<longrightarrow>
         step (Fire (length (timers st))) (step (Elapse d) (step (Poll q) st))
           = step (Elapse d) (step (Poll q) st)) \<and>
      (30 * MS_PER_SECOND \<le> d \<longrightarrow>
         shutdownComplete
           (step (Fire (length (timers st))) (step (Elapse d) (step (Poll q) st))))) \<and>
   length (shutdown_timer_starts (run evs (mount stored))) \<le> 1 \<and>
   (shown (run evs (mount stored)) = Some (Inr ShutdownCompleteMessage) \<longrightarrow>
      (\<exists>t0. shutdown_timer_starts (run evs (mount stored)) =
               [(t0, SetTimeoutCall ShutdownCompleteCallback (30 * MS_PER_SECOND))] \<and>
            t0 + 30 * MS_PER_SECOND \<le> clock (run evs (mount stored))))"
proof (intro conjI impI)
  let ?s = "run evs (mount stored)"
  have inv: "shutdown_timer_inv ?s" by (rule reachable_inv)
  show "length (shutdown_timer_starts ?s) \<le> 1"
    using inv unfolding shutdown_timer_inv_def by (cases "startShutdownTimer ?s") auto
  assume "shown ?s = Some (Inr ShutdownCompleteMessage)"
  with inv show "\<exists>t0. shutdown_timer_starts ?s =
                 [(t0, SetTimeoutCall ShutdownCompleteCallback (30 * MS_PER_SECOND))] \<and>
              t0 + 30 * MS_PER_SECOND \<le> clock ?s"
    unfolding shutdown_timer_inv_def by (cases "startShutdownTimer ?s") auto
next
  assume a: "data q = Some ''shutting-down'' \<and> (isError q \<or> failureCount q > 0) \<and>
    \<not> startShutdownTimer st \<and> \<not> throws st q"
  then have nt:
    "new_timers (st\<lparr>systemStatusQ := q\<rparr>) = [(ShutdownCompleteCallback, 30 * MS_PER_SECOND)]"
    by (auto simp: new_timers_def throws_def)
  from a show "startShutdownTimer (step (Poll q) st)"
    by (simp only: step_Poll_startShutdownTimer) simp
  show t: "timers (step (Poll q) st) =
        timers st @ [(clock st + 30 * MS_PER_SECOND, ShutdownCompleteCallback)]"
    by (simp only: step_Poll_timers nt) simp
  show "calls (step (Poll q) st) =
        calls st @ [(clock st, SetTimeoutCall ShutdownCompleteCallback (30 * MS_PER_SECOND))]"
    by (simp only: step_Poll_calls nt) simp
  have "new_timers ((step (Poll q) st)\<lparr>systemStatusQ := q\<rparr>) = []"
    using a by (auto simp: new_timers_def step_Poll_startShutdownTimer simp del: step.simps)
  then show "timers (step (Poll q) (step (Poll q) st)) = timers (step (Poll q) st)"
    by (simp only: step_Poll_timers [of q "step (Poll q) st"]) simp
  show "step (Fire (length (timers st))) (step (Elapse d) (step (Poll q) st))
           = step (Elapse d) (step (Poll q) st)"
    if "d < 30 * MS_PER_SECOND"
    using t that by (simp add: nth_append step_Poll_fields del: step.simps(3))
  show "shutdownComplete
          (step (Fire (length (timers st))) (step (Elapse d) (step (Poll q) st)))"
    if "30 * MS_PER_SECOND \<le> d"
    using t that by (simp add: nth_append step_Poll_fields del: step.simps(3))
qed

theorem shutdown_timer_rule_witness:
  "data (probe_retrying ''shutting-down'' 1) = Some ''shutting-down'' \<and>
   failureCount (probe_retrying ''shutting-down'' 1) > 0 \<and>
   \<not> startShutdownTimer (run shutdown_requested (mount False)) \<and>
   \<not> throws (run shutdown_requested (mount False)) (probe_retrying ''shutting-down'' 1) \<and>
   timers (step (Poll (probe_retrying ''shutting-down'' 1))
            (run shutdown_requested (mount False)))
     = [(30000, ShutdownCompleteCallback)] \<and>
   shown (run until_shutdown_complete (mount False)) = Some (Inr ShutdownCompleteMessage) \<and>
   shutdown_timer_starts (run until_shutdown_complete (mount False)) =
     [(0, SetTimeoutCall ShutdownCompleteCallback 30000)] \<and>
   30000 \<le> clock (run until_shutdown_complete (mount False))"
  using shutdown_timer_rule
    [of "probe_retrying ''shutting-down'' 1" "run shutdown_requested (mount False)" 30000
      until_shutdown_complete False]
  by (simp add: scenario_defs shutdown_timer_starts_def model_defs)

text \<open>
  The input on which the claim as stated fails: the shutdown was not requested from this
  client, the status is \<^verbatim>\<open>'shutting-down'\<close>, the timer has not been started, and the probe
  fails with a query error. The render throws the error, no effect runs and no timer is
  started.
\<close>

theorem untriggered_error_starts_no_timer:
  "data (probe_failed ''shutting-down'' ''fetch failed'') = Some ''shutting-down'' \<and>
   isError (probe_failed ''shutting-down'' ''fetch failed'') \<and>
   failureCount (probe_failed ''shutting-down'' ''fetch failed'') > 0 \<and>
   wf_query (probe_failed ''shutting-down'' ''fetch failed'') \<and>
   \<not> startShutdownTimer (run shutdown_elsewhere (mount False)) \<and>
   \<not> startShutdownTimer
       (step (Poll (probe_failed ''shutting-down'' ''fetch failed''))
          (run shutdown_elsewhere (mount False))) \<and>
   timers (step (Poll (probe_failed ''shutting-down'' ''fetch failed''))
             (run shutdown_elsewhere (mount False))) = [] \<and>
   calls (step (Poll (probe_failed ''shutting-down'' ''fetch failed''))
            (run shutdown_elsewhere (mount False))) = [] \<and>
   shown (step (Poll (probe_failed ''shutting-down'' ''fetch failed''))
            (run shutdown_elsewhere (mount False))) = Some (Inl ''fetch failed'')"
  by (simp add: scenario_defs model_defs wf_query_def)

text \<open>
  C4. When the query delivers status \<^verbatim>\<open>'running'\<close> while \<open>shouldLogoutOnRunning\<close> is true
  (and the render returns, as it does after a successful probe), the flag is false right after
  the effect, one timer of 1000 ms is started and nothing else is called; rendering again
  starts no second timer. The timer does nothing before 1000 ms have passed; once they have,
  firing it cancels the queries, removes the token and navigates to \<^verbatim>\<open>'/'\<close>, each once and in
  this order, and the timer is gone.
\<close>

theorem logout_on_running:
  assumes "data q = Some ''running''" and "\<not> throws st q" and "shouldLogoutOnRunning st"
  shows "\<not> shouldLogoutOnRunning (step (Poll q) st) \<and>
     timers (step (Poll q) st) = timers st @ [(clock st + 1000, LogoutCallback)] \<and>
     calls (step (Poll q) st) = calls st @ [(clock st, SetTimeoutCall LogoutCallback 1000)] \<and>
     timers (step (Poll q) (step (Poll q) st)) = timers (step (Poll q) st) \<and>
     (d < 1000 \<longrightarrow>
        step (Fire (length (timers st))) (step (Elapse d) (step (Poll q) st))
          = step (Elapse d) (step (Poll q) st)) \<and>
     (1000 \<le> d \<longrightarrow>
        calls (step (Fire (length (timers st))) (step (Elapse d) (step (Poll q) st)))
          = calls (step (Poll q) st) @
            [(clock st + d, CancelQueries), (clock st + d, RemoveJwt),
             (clock st + d, Navigate ''/'')] \<and>
        timers (step (Fire (length (timers st))) (step (Elapse d) (step (Poll q) st)))
          = timers st)"
proof -
  let ?s = "step (Poll q) st"
  from assms have nt: "new_timers (st\<lparr>systemStatusQ := q\<rparr>) = [(LogoutCallback, 1000)]"
    by (auto simp: new_timers_def throws_def)
  have flag: "\<not> shouldLogoutOnRunning ?s"
    using assms by (simp only: step_Poll_shouldLogout) simp
  have t: "timers ?s = timers st @ [(clock st + 1000, LogoutCallback)]"
    by (simp only: step_Poll_timers nt) simp
  have c: "calls ?s = calls st @ [(clock st, SetTimeoutCall LogoutCallback 1000)]"
    by (simp only: step_Poll_calls nt) simp
  have "new_timers (?s\<lparr>systemStatusQ := q\<rparr>) = []"
    using assms flag by (auto simp: new_timers_def simp del: step.simps)
  then have again: "timers (step (Poll q) ?s) = timers ?s"
    by (simp only: step_Poll_timers [of q ?s]) simp
  have early:
    "d < 1000 \<longrightarrow> step (Fire (length (timers st))) (step (Elapse d) ?s) = step (Elapse d) ?s"
    using t by (simp add: nth_append step_Poll_fields del: step.simps(3))
  have due: "1000 \<le> d \<longrightarrow>
        calls (step (Fire (length (timers st))) (step (Elapse d) ?s))
          = calls ?s @
            [(clock st + d, CancelQueries), (clock st + d, RemoveJwt),
             (clock st + d, Navigate ''/'')] \<and>
        timers (step (Fire (length (timers st))) (step (Elapse d) ?s)) = timers st"
    using t by (simp add: nth_append step_Poll_fields del: step.simps(3))
  from flag t c again early due show ?thesis by blast
qed

theorem logout_on_running_witness:
  "data (probe_ok ''running'') = Some ''running'' \<and>
   \<not> throws (mount True) (probe_ok ''running'') \<and>
   shouldLogoutOnRunning (mount True) \<and>
   \<not> shouldLogoutOnRunning (step (Poll (probe_ok ''running'')) (mount True)) \<and>
   timers (step (Poll (probe_ok ''running'')) (mount True)) = [(1000, LogoutCallback)] \<and>
   calls (step (Fire 0) (step (Elapse 1000) (step (Poll (probe_ok ''running'')) (mount True)))) =
     [(0, SetTimeoutCall LogoutCallback 1000), (1000, CancelQueries), (1000, RemoveJwt),
      (1000, Navigate ''/'')] \<and>
   step (Fire 0) (step (Elapse 999) (step (Poll (probe_ok ''running'')) (mount True))) =
     step (Elapse 999) (step (Poll (probe_ok ''running'')) (mount True))"
  using logout_on_running [of "probe_ok ''running''" "mount True" 1000]
    logout_on_running [of "probe_ok ''running''" "mount True" 999]
  by (simp add: model_defs)

text \<open>
  C5. A call of \<^verbatim>\<open>restart()\<close> or \<^verbatim>\<open>shutdown()\<close> sets \<open>triggered\<close> at once, with the request
  issued and before any \<^verbatim>\<open>onSuccess\<close>; from then on, whatever happens, \<open>triggered\<close> stays true
  and the refetch interval is 500 ms (it is \<open>10 * MS_PER_SECOND\<close> while \<open>triggered\<close> is
  false); and when the mutation succeeds the status query is cancelled.
\<close>

theorem invoke_sets_triggered:
  "triggered (step (Invoke m) st) \<and>
   (clock st, Mutate m) \<in> set (calls (step (Invoke m) st)) \<and>
   refetchInterval (triggered (step (Invoke m) st)) = 500 \<and>
   triggered (run evs (step (Invoke m) st)) \<and>
   refetchInterval (triggered (run evs (step (Invoke m) st))) = 500 \<and>
   refetchInterval False = 10 * MS_PER_SECOND \<and>
   calls (step MutationSuccess st) = calls st @ [(clock st, CancelStatusQuery)]"
proof -
  have t: "triggered (step (Invoke m) st)" by (simp add: step_triggered del: step.simps)
  then have r: "triggered (run evs (step (Invoke m) st))" by (rule run_triggered)
  have c: "(clock st, Mutate m) \<in> set (calls (step (Invoke m) st))"
    by (simp add: settle_calls onMutate_def)
  from t r c show ?thesis by (simp add: refetchInterval_def onSuccess_def del: step.simps(1))
qed

theorem invoke_sets_triggered_witness:
  "\<not> triggered (run [Poll (probe_ok ''running'')] (mount False)) \<and>
   triggered (step (Invoke Restart) (run [Poll (probe_ok ''running'')] (mount False))) \<and>
   calls (step (Invoke Restart) (run [Poll (probe_ok ''running'')] (mount False)))
     = [(0, Mutate Restart)] \<and>
   refetchInterval (triggered (run [Poll (probe_ok ''running'')] (mount False))) = 10000 \<and>
   refetchInterval
     (triggered (step (Invoke Restart) (run [Poll (probe_ok ''running'')] (mount False)))) = 500 \<and>
   calls (step MutationSuccess
            (step (Invoke Restart) (run [Poll (probe_ok ''running'')] (mount False))))
     = [(0, Mutate Restart), (0, CancelStatusQuery)]"
  using invoke_sets_triggered [of Restart "run [Poll (probe_ok ''running'')] (mount False)" "[]"]
  by (simp add: model_defs refetchInterval_def)

text \<open>
  C6. A render throws an error exactly when the query carries that error and \<open>triggered\<close> is
  false. With \<open>triggered\<close> true nothing is thrown: the render returns a screen, the screen
  does not depend on the error fields of the query, and neither do the two logout effects,
  which read the status only; the timer effect is the one reader left, and with status
  \<^verbatim>\<open>'shutting-down'\<close> and the timer not started, \<open>isError\<close> makes it start the timer.
\<close>

theorem query_error_propagation:
  "(GlobalSystemStateProvider st q p = Inl e \<longleftrightarrow> error q = Some e \<and> \<not> triggered st) \<and>
   (triggered st \<longrightarrow>
      GlobalSystemStateProvider st q p = Inr (view st q p) \<and>
      shown (step (Poll q) st) \<noteq> Some (Inl e) \<and>
      view st (q\<lparr>error := x, isError := b\<rparr>) p = view st q p \<and>
      effect_owe_logout st (data (q\<lparr>error := x, isError := b\<rparr>)) = effect_owe_logout st (data q) \<and>
      effect_logout st (data (q\<lparr>error := x, isError := b\<rparr>)) = effect_logout st (data q)) \<and>
   (data q = Some ''shutting-down'' \<and> \<not> startShutdownTimer st \<and> isError q \<longrightarrow>
      effect_shutdown_timer st q =
        [SetStartShutdownTimer True, SetTimeout ShutdownCompleteCallback (30 * MS_PER_SECOND)])"
  by (auto simp: render_Inl_iff step_Poll_shown render_no_throw throws_def view_def
        effect_shutdown_timer_def simp del: step.simps)

theorem query_error_propagation_witness:
  "triggered (run shutdown_requested (mount False)) \<and>
   data (probe_failed ''shutting-down'' ''fetch failed'') = Some ''shutting-down'' \<and>
   \<not> startShutdownTimer (run shutdown_requested (mount False)) \<and>
   isError (probe_failed ''shutting-down'' ''fetch failed'') \<and>
   GlobalSystemStateProvider (run shutdown_requested (mount False))
       (probe_failed ''shutting-down'' ''fetch failed'') (Some ''running'')
     = Inr ShuttingDownScreen \<and>
   effect_shutdown_timer (run shutdown_requested (mount False))
       (probe_failed ''shutting-down'' ''fetch failed'')
     = [SetStartShutdownTimer True,
        SetTimeout ShutdownCompleteCallback (30 * MS_PER_SECOND)] \<and>
   GlobalSystemStateProvider (mount False) (probe_failed ''shutting-down'' ''fetch failed'') None
     = Inl ''fetch failed''"
  using query_error_propagation
      [of "run shutdown_requested (mount False)"
        "probe_failed ''shutting-down'' ''fetch failed''" "Some ''running''" "''fetch failed''"]
    query_error_propagation
      [of "mount False" "probe_failed ''shutting-down'' ''fetch failed''" None "''fetch failed''"]
  by (simp add: scenario_defs model_defs)



text \<open>
  C8. For a status outside \<^verbatim>\<open>'running'\<close>, \<^verbatim>\<open>'shutting-down'\<close>, \<^verbatim>\<open>'restarting'\<close> the switch
  yields the unexpected-state screen, and so does the render whenever it does not throw the
  query error. The claim's "never throws" does not hold for the whole render: with a query
  error and \<open>triggered\<close> false the error is thrown whatever the status is, and this is the
  only exception there is.
\<close>

theorem unknown_status_fallback:
  "s \<noteq> ''running'' \<and> s \<noteq> ''shutting-down'' \<and> s \<noteq> ''restarting'' \<longrightarrow>
     switch_screen (Some s) = UnexpectedState \<and>
     (wf_query q \<and> data q = Some s \<and> \<not> throws st q \<longrightarrow>
        GlobalSystemStateProvider st q p = Inr UnexpectedState) \<and>
     (wf_query q \<and> data q = Some s \<and> throws st q \<longrightarrow>
        (\<exists>e. error q = Some e \<and> GlobalSystemStateProvider st q p = Inl e))"
  by (auto simp: wf_query_def throws_def GlobalSystemStateProvider_def view_def switch_screen_def statusToShow_def
        split: option.splits)

theorem unknown_status_fallback_witness:
  "''degraded'' \<noteq> ''running'' \<and> ''degraded'' \<noteq> ''shutting-down'' \<and>
   ''degraded'' \<noteq> ''restarting'' \<and>
   wf_query (probe_ok ''degraded'') \<and> data (probe_ok ''degraded'') = Some ''degraded'' \<and>
   \<not> throws (mount False) (probe_ok ''degraded'') \<and>
   switch_screen (Some ''degraded'') = UnexpectedState \<and>
   GlobalSystemStateProvider (mount False) (probe_ok ''degraded'') None = Inr UnexpectedState"
  using unknown_status_fallback [of "''degraded''" "probe_ok ''degraded''" "mount False" None]
  by (simp add: model_defs wf_query_def)

text \<open>
  The input on which the claim as stated fails: the status is the unknown value
  \<^verbatim>\<open>'degraded'\<close>, a refetch fails and \<open>triggered\<close> is false. The render throws.
\<close>

theorem unknown_status_throws:
  "wf_query (probe_failed ''degraded'' ''fetch failed'') \<and>
   data (probe_failed ''degraded'' ''fetch failed'') = Some ''degraded'' \<and>
   GlobalSystemStateProvider (run [Poll (probe_ok ''degraded'')] (mount False))
       (probe_failed ''degraded'' ''fetch failed'') None
     = Inl ''fetch failed'' \<and>
   shown (run [Poll (probe_ok ''degraded''), Poll (probe_failed ''degraded'' ''fetch failed'')]
            (mount False))
     = Some (Inl ''fetch failed'')"
  by (simp add: model_defs wf_query_def)

text \<open>
  C9. Of the two flags only \<open>shouldLogoutOnRunning\<close> is reset by the component: the logout
  effect sets it back to false when the status is \<^verbatim>\<open>'running'\<close>. No step of the component
  sets \<open>triggered\<close> back to false (the call that would is commented out in the source): an
  event leaves \<open>triggered\<close> as it was, except that a call of \<^verbatim>\<open>restart()\<close> or
  \<^verbatim>\<open>shutdown()\<close> sets it, so once true it stays true for as long as the component is mounted.
  It is false again only in the state of a new mount.
\<close>

theorem flags_reset:
  "(triggered (step ev st) \<longleftrightarrow> triggered st \<or> (\<exists>m. ev = Invoke m)) \<and>
   (triggered st \<longrightarrow> triggered (run evs st)) \<and>
   \<not> triggered (mount stored) \<and>
   (shouldLogoutOnRunning st \<and> data q = Some ''running'' \<and> \<not> throws st q \<longrightarrow>
      \<not> shouldLogoutOnRunning (step (Poll q) st))"
  by (auto simp: step_triggered run_triggered step_Poll_shouldLogout mount_def
        simp del: step.simps)

theorem flags_reset_witness:
  "triggered (run restart_requested (mount False)) \<and>
   shouldLogoutOnRunning (run restart_requested (mount False)) \<and>
   data (probe_ok ''running'') = Some ''running'' \<and>
   \<not> throws (run restart_requested (mount False)) (probe_ok ''running'') \<and>
   \<not> shouldLogoutOnRunning
       (step (Poll (probe_ok ''running'')) (run restart_requested (mount False))) \<and>
   triggered (run [Elapse 1000, Fire 0]
                (step (Poll (probe_ok ''running'')) (run restart_requested (mount False))))"
  using flags_reset
    [of "Poll (probe_ok ''running'')" "run restart_requested (mount False)"
      "[Elapse 1000, Fire 0]" False "probe_ok ''running''"]
  by (simp add: scenario_defs model_defs)

text \<open>
  The input on which the claim as stated fails: a whole restart cycle, from the request to the
  navigation to \<^verbatim>\<open>'/'\<close>. The flags after each of its eight events: \<open>shouldLogoutOnRunning\<close>
  is set and reset, \<open>triggered\<close> is set by the request and true ever after.
\<close>

theorem triggered_survives_restart_cycle:
  "map (\<lambda>n. triggered (run (take n restart_cycle) (mount False))) [0, 1, 2, 3, 4, 5, 6, 7, 8]
     = [False, False, True, True, True, True, True, True, True] \<and>
   map (\<lambda>n. shouldLogoutOnRunning (run (take n restart_cycle) (mount False)))
       [0, 1, 2, 3, 4, 5, 6, 7, 8]
     = [False, False, False, False, True, True, False, False, False] \<and>
   calls (run restart_cycle (mount False)) =
     [(0, Mutate Restart), (0, CancelStatusQuery), (0, SetTimeoutCall LogoutCallback 1000),
      (1000, CancelQueries), (1000, RemoveJwt), (1000, Navigate ''/'')] \<and>
   triggered (run restart_cycle (mount False))"
  by (simp add: scenario_defs model_defs)

text \<open>
  C10. As long as the hook has seen nothing but \<^verbatim>\<open>undefined\<close> it returns \<^verbatim>\<open>undefined\<close>
  for the next value, and the previous status defaults to \<^verbatim>\<open>'running'\<close>. So on the first
  defined observation, with \<open>triggered\<close> true and status \<^verbatim>\<open>'running'\<close>, \<open>statusToShow\<close>
  is \<^verbatim>\<open>'running'\<close> and the children are rendered.
\<close>

theorem first_observation_defaults_to_running:
  assumes "wf_query q" and "triggered st" and "data q = Some ''running''"
  shows "fst (usePreviousDistinct (observed unmounted_refs (replicate n None)) (data q)) = None \<and>
     prevStatus None = ''running'' \<and>
     statusToShow (triggered st) (data q) (prevStatus None) = Some ''running'' \<and>
     GlobalSystemStateProvider st q None = Inr Children \<and>
     (prevDistinct st = observed unmounted_refs (replicate n None) \<longrightarrow>
        shown (step (Poll q) st) = Some (Inr Children))"
proof -
  have r: "GlobalSystemStateProvider st q None = Inr Children"
    using assms
    by (auto simp: wf_query_def GlobalSystemStateProvider_def view_def statusToShow_def prevStatus_def
          switch_screen_def split: option.splits)
  then show ?thesis
    using assms(2,3)
    by (simp add: first_defined_previous step_Poll_shown statusToShow_def prevStatus_def
          del: step.simps)
qed

theorem first_observation_defaults_to_running_witness:
  "wf_query (probe_ok ''running'') \<and>
   triggered (run [Invoke Restart] (mount False)) \<and>
   data (probe_ok ''running'') = Some ''running'' \<and>
   prevDistinct (run [Invoke Restart] (mount False))
     = observed unmounted_refs (replicate 2 None) \<and>
   GlobalSystemStateProvider (run [Invoke Restart] (mount False)) (probe_ok ''running'') None
     = Inr Children \<and>
   shown (step (Poll (probe_ok ''running'')) (run [Invoke Restart] (mount False)))
     = Some (Inr Children)"
  using first_observation_defaults_to_running
     [of "probe_ok ''running''" "run [Invoke Restart] (mount False)" 2]
  by (simp add: model_defs wf_query_def observed_def numeral_2_eq_2)

end
